theory Spec2Isabelle
  imports
    Main
    "HOL-Library.Char_ord"
    "HOL-Library.List_Lexorder"
    "HOL-Library.Product_Lexorder"
    "HOL-Library.Sublist"
begin

section \<open>Package gcs: a bucket bound to a project and an HTTP client\<close>

text \<open>
  The embedding follows the two files of package \<^verbatim>\<open>gcs\<close>: \<^verbatim>\<open>bucket.go\<close> (the three
  methods of the unexported type \<^verbatim>\<open>bucket\<close>) and \<^verbatim>\<open>requests.go\<close> (the request and result
  types, which carry their contracts in doc comments only).

  Go strings are byte strings and compare bytewise; \<^typ>\<open>string\<close> with the order of
  \<^theory_text>\<open>Char_ord\<close> and \<^theory_text>\<open>List_Lexorder\<close> is exactly that order. An \<^verbatim>\<open>int64\<close> that is only
  compared and never computed with is an \<^typ>\<open>int\<close>. A Go pointer that the caller may
  pass as \<^verbatim>\<open>nil\<close> is an \<^typ>\<open>'a option\<close>.
\<close>

subsection \<open>Values of the imported packages\<close>

text \<open>\<^verbatim>\<open>*http.Client\<close> is an opaque handle for the bucket: it is stored and handed on.\<close>

type_synonym http_Client = nat

text \<open>
  \<^verbatim>\<open>context.Context\<close>, with \<^verbatim>\<open>cloud.WithContext(parent, projID, client)\<close> wrapping a
  parent context together with the project and the client.
\<close>

datatype Context = Background | WithContext Context string http_Client

text \<open>The error values of the package's operations (the taxonomy of its errors).\<close>

datatype error =
    InvalidArgument
  | PreconditionFailed
  | InvalidUpdate
  | CorruptListing
  | NotFound
  | Cancelled
  | DeadlineExceeded
  | TransientStoreError
  | Unauthorized

text \<open>A run-time panic of the Go program, as opposed to a returned \<^verbatim>\<open>error\<close>.\<close>

datatype go_panic = NilPointerDereference

text \<open>
  A call into the remote store (package \<^verbatim>\<open>storage\<close>): it may change the state \<open>'s\<close> of
  the world behind the client and returns \<^verbatim>\<open>(value, error)\<close>.
\<close>

type_synonym ('a, 's) remote = "'s \<Rightarrow> (error + 'a) \<times> 's"

text \<open>
  \<^verbatim>\<open>storage.ObjectAttrs\<close>, the attributes a writer is created with, and
  \<^verbatim>\<open>storage.Writer\<close>, of which only the field set by \<^verbatim>\<open>NewWriter\<close> is modelled.
\<close>

record ObjectAttrs =
  Name :: string
  ContentType :: string
  ContentLanguage :: string
  ContentEncoding :: string
  CacheControl :: string
  Metadata :: "string \<rightharpoonup> string"

record storage_Writer =
  ObjectAttrs :: ObjectAttrs

subsection \<open>bucket.go\<close>

record bucket =
  projID :: string
  client :: http_Client
  name :: string

text \<open>
  The struct \<^verbatim>\<open>objectWriter\<close> that \<^verbatim>\<open>NewWriter\<close> builds; of its declaration only the field
  \<^verbatim>\<open>wrapped\<close> is used by \<^verbatim>\<open>bucket.go\<close>.
\<close>

record objectWriter =
  wrapped :: storage_Writer

definition bucket_Name :: "bucket \<Rightarrow> string" where
  "bucket_Name b = name b"

text \<open>
  \<^verbatim>\<open>ListObjects\<close> and \<^verbatim>\<open>NewReader\<close> build the authorised context and delegate to the
  functions \<^verbatim>\<open>storage.ListObjects\<close> and \<^verbatim>\<open>storage.NewReader\<close> of the imported package,
  which are parameters here. Neither method looks into the query, the object name or
  the result, so the query type \<open>'q\<close>, the result type \<open>'r\<close> and the reader type
  \<open>'rd\<close> stay type variables (a \<^verbatim>\<open>nil\<close> query is handed on like any other). The
  receiver is the bucket that the package has built, never \<^verbatim>\<open>nil\<close>.
\<close>

definition ListObjects ::
  "(Context \<Rightarrow> string \<Rightarrow> 'q \<Rightarrow> ('r, 's) remote) \<Rightarrow> bucket \<Rightarrow> Context \<Rightarrow> 'q \<Rightarrow> ('r, 's) remote" where
  "ListObjects storage_ListObjects b ctx query =
     (let authContext = WithContext ctx (projID b) (client b)
      in storage_ListObjects authContext (name b) query)"

definition NewReader ::
  "(Context \<Rightarrow> string \<Rightarrow> string \<Rightarrow> ('rd, 's) remote) \<Rightarrow> bucket \<Rightarrow> Context \<Rightarrow> string \<Rightarrow> ('rd, 's) remote" where
  "NewReader storage_NewReader b ctx objectName =
     (let authContext = WithContext ctx (projID b) (client b)
      in storage_NewReader authContext (name b) objectName)"

text \<open>
  \<^verbatim>\<open>NewWriter\<close> dereferences \<^verbatim>\<open>attrs\<close> while building the writer, which panics on a
  \<^verbatim>\<open>nil\<close> pointer; otherwise it returns the writer and a \<^verbatim>\<open>nil\<close> error. It has no access to
  the remote store: the state \<open>s\<close> is returned as it came.
\<close>

definition NewWriter ::
  "bucket \<Rightarrow> Context \<Rightarrow> ObjectAttrs option \<Rightarrow> 's \<Rightarrow> (go_panic + (error + objectWriter)) \<times> 's" where
  "NewWriter b ctx attrs s =
     (case attrs of
        None \<Rightarrow> (Inl NilPointerDereference, s)
      | Some a \<Rightarrow>
          (let w = \<lparr>wrapped = \<lparr>ObjectAttrs = a\<rparr>\<rparr>
           in (Inr (Inr w), s)))"

subsection \<open>requests.go\<close>

text \<open>
  The rules for object names, as documented on \<^verbatim>\<open>CreateObjectRequest.Name\<close>: non-empty,
  at most 1024 bytes, valid UTF-8, no line feed, no carriage return. No function of the
  source checks them. Valid UTF-8 is the encoding of RFC 3629 over the bytes of the
  string: no overlong form, no surrogate, nothing beyond U+10FFFF.
\<close>

definition cont_byte :: "nat \<Rightarrow> bool" where
  "cont_byte b = (0x80 \<le> b \<and> b \<le> 0xBF)"

fun valid_utf8 :: "nat list \<Rightarrow> bool" where
  "valid_utf8 [] = True"
| "valid_utf8 (b0 # bs) =
     (if b0 < 0x80 then valid_utf8 bs
      else if 0xC2 \<le> b0 \<and> b0 \<le> 0xDF then
        (case bs of
           b1 # r \<Rightarrow> cont_byte b1 \<and> valid_utf8 r
         | _ \<Rightarrow> False)
      else if 0xE0 \<le> b0 \<and> b0 \<le> 0xEF then
        (case bs of
           b1 # b2 # r \<Rightarrow>
             (if b0 = 0xE0 then 0xA0 \<le> b1 \<and> b1 \<le> 0xBF
              else if b0 = 0xED then 0x80 \<le> b1 \<and> b1 \<le> 0x9F
              else cont_byte b1)
             \<and> cont_byte b2 \<and> valid_utf8 r
         | _ \<Rightarrow> False)
      else if 0xF0 \<le> b0 \<and> b0 \<le> 0xF4 then
        (case bs of
           b1 # b2 # b3 # r \<Rightarrow>
             (if b0 = 0xF0 then 0x90 \<le> b1 \<and> b1 \<le> 0xBF
              else if b0 = 0xF4 then 0x80 \<le> b1 \<and> b1 \<le> 0x8F
              else cont_byte b1)
             \<and> cont_byte b2 \<and> cont_byte b3 \<and> valid_utf8 r
         | _ \<Rightarrow> False)
      else False)"

definition valid_name :: "string \<Rightarrow> bool" where
  "valid_name n =
     (n \<noteq> [] \<and> length n \<le> 1024 \<and> valid_utf8 (map of_char n)
      \<and> CHR 0x0A \<notin> set n \<and> CHR 0x0D \<notin> set n)"

text \<open>
  \<^verbatim>\<open>ListObjectsRequest\<close>, as declared. \<^verbatim>\<open>MaxResults\<close> is a Go \<^verbatim>\<open>int\<close> that is only handed
  on.
\<close>

record ListObjectsRequest =
  Prefix :: string
  Delimiter :: string
  ContinuationToken :: string
  MaxResults :: int

text \<open>
  Modelled from the spec: the Object Record. \<^verbatim>\<open>Listing.Objects\<close> holds \<^verbatim>\<open>*Object\<close>, but the
  struct \<^verbatim>\<open>Object\<close> is declared outside \<^verbatim>\<open>bucket.go\<close> and \<^verbatim>\<open>requests.go\<close>. The spec gives it
  a name, a generation, four string attributes and string-keyed user metadata; an
  attribute that has been removed is \<^term>\<open>None\<close>.
\<close>

record Object =
  Name :: string
  Generation :: int
  ContentType :: "string option"
  ContentLanguage :: "string option"
  ContentEncoding :: "string option"
  CacheControl :: "string option"
  Metadata :: "string \<rightharpoonup> string"

record Listing =
  Objects :: "Object list"
  CollapsedRuns :: "string list"
  ContinuationToken :: string

text \<open>
  The guarantees documented on \<^verbatim>\<open>Listing\<close>: \<^verbatim>\<open>Objects\<close> strictly increasing under the
  lexicographic order on (name, generation) pairs, \<^verbatim>\<open>CollapsedRuns\<close> strictly increasing.
\<close>

definition object_key :: "Object \<Rightarrow> string \<times> int" where
  "object_key obj = (Object.Name obj, Generation obj)"

definition strictly_increasing_objects :: "Object list \<Rightarrow> bool" where
  "strictly_increasing_objects objs = sorted_wrt (<) (map object_key objs)"

definition strictly_increasing_runs :: "string list \<Rightarrow> bool" where
  "strictly_increasing_runs runs = sorted_wrt (<) runs"

definition page_ordered :: "Listing \<Rightarrow> bool" where
  "page_ordered l =
     (strictly_increasing_objects (Objects l) \<and> strictly_increasing_runs (CollapsedRuns l))"

text \<open>
  The guarantee documented on \<^verbatim>\<open>Listing.ContinuationToken\<close> for replies \<open>R1\<close> and \<open>R2\<close>,
  with \<open>R2\<close> continuing from \<open>R1\<close>: all of \<open>R1\<close>'s object names are strictly less than all
  object names and collapsed runs in \<open>R2\<close>, and so are all of \<open>R1\<close>'s collapsed runs.
\<close>

definition continues_in_order :: "Listing \<Rightarrow> Listing \<Rightarrow> bool" where
  "continues_in_order R1 R2 =
     ((\<forall>o1 \<in> set (Objects R1).
         (\<forall>o2 \<in> set (Objects R2). Object.Name o1 < Object.Name o2)
         \<and> (\<forall>p \<in> set (CollapsedRuns R2). Object.Name o1 < p))
      \<and> (\<forall>r \<in> set (CollapsedRuns R1).
         (\<forall>o2 \<in> set (Objects R2). r < Object.Name o2)
         \<and> (\<forall>p \<in> set (CollapsedRuns R2). r < p)))"

definition empty_page :: "Listing \<Rightarrow> bool" where
  "empty_page l = (Objects l = [] \<and> CollapsedRuns l = [])"

text \<open>
  A continuation sequence of a listing function \<open>list_page\<close>: the first page answers the
  request \<open>q\<close>, and each further page answers \<open>q\<close> with \<^verbatim>\<open>ContinuationToken\<close> set to the
  non-empty token of the page before it. (An empty token starts a listing afresh, so it is
  never followed.)
\<close>

fun continuation_sequence ::
  "(ListObjectsRequest \<Rightarrow> (Listing, 's) remote) \<Rightarrow> ListObjectsRequest \<Rightarrow> 's \<Rightarrow> Listing list \<Rightarrow> bool" where
  "continuation_sequence list_page q s [] = True"
| "continuation_sequence list_page q s (R # Rs) =
     (case list_page q s of
        (Inl e, s') \<Rightarrow> False
      | (Inr R', s') \<Rightarrow>
          R' = R
          \<and> (Rs = [] \<or> Listing.ContinuationToken R \<noteq> [])
          \<and> continuation_sequence list_page
               (q\<lparr>ListObjectsRequest.ContinuationToken := Listing.ContinuationToken R\<rparr>) s' Rs)"

definition interior :: "'a list \<Rightarrow> 'a list" where
  "interior xs = butlast (tl xs)"

text \<open>
  The listing criteria documented on \<^verbatim>\<open>ListObjectsRequest\<close>: an object matches when its
  name begins with \<^verbatim>\<open>Prefix\<close>; with a non-empty \<^verbatim>\<open>Delimiter\<close> a matching name of the form
  \<^verbatim>\<open><Prefix><S><Delimiter><...>\<close>, where \<^verbatim>\<open><S>\<close> does not contain the delimiter, is
  collapsed into the entry \<^verbatim>\<open><Prefix><S><Delimiter>\<close>.
\<close>

definition matches :: "ListObjectsRequest \<Rightarrow> Object \<Rightarrow> bool" where
  "matches q obj = prefix (Prefix q) (Object.Name obj)"

fun upto_delimiter :: "string \<Rightarrow> string \<Rightarrow> string option" where
  "upto_delimiter d [] = None"
| "upto_delimiter d (c # cs) =
     (if prefix d (c # cs) then Some d
      else map_option ((#) c) (upto_delimiter d cs))"

definition collapsed_run :: "ListObjectsRequest \<Rightarrow> string \<Rightarrow> string option" where
  "collapsed_run q n =
     (if Delimiter q = [] \<or> \<not> prefix (Prefix q) n then None
      else map_option ((@) (Prefix q))
             (upto_delimiter (Delimiter q) (drop (length (Prefix q)) n)))"

text \<open>
  A listing represents the full set of matching objects of a bucket that holds the objects \<open>held\<close>
  when it has every matching object that is not collapsed and every collapsed run, and
  nothing else.
\<close>

definition full_listing :: "Object list \<Rightarrow> ListObjectsRequest \<Rightarrow> Listing \<Rightarrow> bool" where
  "full_listing held q l =
     (set (Objects l)
        = set (filter (\<lambda>obj. matches q obj \<and> collapsed_run q (Object.Name obj) = None) held)
      \<and> set (CollapsedRuns l)
        = set (List.map_filter (\<lambda>obj. collapsed_run q (Object.Name obj)) held))"

subsection \<open>The metadata patch resolver\<close>

text \<open>
  \<^verbatim>\<open>UpdateObjectRequest\<close>, as declared: a \<^verbatim>\<open>*string\<close> is \<^term>\<open>None\<close> for \<^verbatim>\<open>nil\<close>, and the map
  \<^verbatim>\<open>map[string]*string\<close> is the list of its entries in the order in which a \<^verbatim>\<open>range\<close> loop
  meets them (Go leaves that order open; nothing below depends on it).
\<close>

record UpdateObjectRequest =
  Name :: string
  ContentType :: "string option"
  ContentEncoding :: "string option"
  ContentLanguage :: "string option"
  CacheControl :: "string option"
  Metadata :: "(string \<times> string option) list"

datatype attribute = ContentTypeAttr | ContentEncodingAttr | ContentLanguageAttr | CacheControlAttr

datatype mutation =
    SetField attribute string
  | DeleteField attribute
  | SetKey string string
  | DeleteKey string

text \<open>
  Modelled from the spec: the Metadata Patch Resolver, of which the source has the request
  type and its documented semantics only. For each of the four string attributes: absent
  gives no mutation, the empty string a delete-field mutation, any other string a set-field
  mutation; deleting the content type fails with \<^verbatim>\<open>InvalidUpdate\<close>. For each metadata key
  of the request: no value gives a delete-key mutation, a value a set-key mutation.
\<close>

definition resolve_attribute :: "attribute \<Rightarrow> string option \<Rightarrow> mutation list" where
  "resolve_attribute a f =
     (case f of
        None \<Rightarrow> []
      | Some v \<Rightarrow> if v = [] then [DeleteField a] else [SetField a v])"

definition resolve_key :: "string \<times> string option \<Rightarrow> mutation" where
  "resolve_key kv =
     (case snd kv of
        None \<Rightarrow> DeleteKey (fst kv)
      | Some v \<Rightarrow> SetKey (fst kv) v)"

definition resolve :: "UpdateObjectRequest \<Rightarrow> error + mutation list" where
  "resolve req =
     (if UpdateObjectRequest.ContentType req = Some [] then Inl InvalidUpdate
      else Inr (resolve_attribute ContentTypeAttr (UpdateObjectRequest.ContentType req)
              @ resolve_attribute ContentEncodingAttr (UpdateObjectRequest.ContentEncoding req)
              @ resolve_attribute ContentLanguageAttr (UpdateObjectRequest.ContentLanguage req)
              @ resolve_attribute CacheControlAttr (UpdateObjectRequest.CacheControl req)
              @ map resolve_key (UpdateObjectRequest.Metadata req)))"

text \<open>
  Modelled from the spec: what a mutation does to the Object Record it is applied to (the
  remote store's side of \<^verbatim>\<open>RemotePatch\<close>): a set mutation stores the value, a delete
  mutation removes the attribute or the key, everything else stays.
\<close>

fun set_attribute :: "attribute \<Rightarrow> string option \<Rightarrow> Object \<Rightarrow> Object" where
  "set_attribute ContentTypeAttr v obj = obj\<lparr>Object.ContentType := v\<rparr>"
| "set_attribute ContentEncodingAttr v obj = obj\<lparr>Object.ContentEncoding := v\<rparr>"
| "set_attribute ContentLanguageAttr v obj = obj\<lparr>Object.ContentLanguage := v\<rparr>"
| "set_attribute CacheControlAttr v obj = obj\<lparr>Object.CacheControl := v\<rparr>"

fun apply_mutation :: "mutation \<Rightarrow> Object \<Rightarrow> Object" where
  "apply_mutation (SetField a v) obj = set_attribute a (Some v) obj"
| "apply_mutation (DeleteField a) obj = set_attribute a None obj"
| "apply_mutation (SetKey k v) obj = obj\<lparr>Object.Metadata := (Object.Metadata obj)(k \<mapsto> v)\<rparr>"
| "apply_mutation (DeleteKey k) obj = obj\<lparr>Object.Metadata := (Object.Metadata obj)(k := None)\<rparr>"

fun apply_mutations :: "mutation list \<Rightarrow> Object \<Rightarrow> Object" where
  "apply_mutations [] obj = obj"
| "apply_mutations (m # ms) obj = apply_mutations ms (apply_mutation m obj)"

definition apply_request :: "UpdateObjectRequest \<Rightarrow> Object \<Rightarrow> error + Object" where
  "apply_request req obj =
     (case resolve req of
        Inl e \<Rightarrow> Inl e
      | Inr ms \<Rightarrow> Inr (apply_mutations ms obj))"

definition apply_request_twice :: "UpdateObjectRequest \<Rightarrow> Object \<Rightarrow> error + Object" where
  "apply_request_twice req obj =
     (case apply_request req obj of
        Inl e \<Rightarrow> Inl e
      | Inr obj' \<Rightarrow> apply_request req obj')"

text \<open>The places of an Object Record that a mutation can write, for the proofs.\<close>

datatype slot = Attribute attribute | Key string

fun target :: "mutation \<Rightarrow> slot" where
  "target (SetField a v) = Attribute a"
| "target (DeleteField a) = Attribute a"
| "target (SetKey k v) = Key k"
| "target (DeleteKey k) = Key k"

fun written :: "mutation \<Rightarrow> string option" where
  "written (SetField a v) = Some v"
| "written (DeleteField a) = None"
| "written (SetKey k v) = Some v"
| "written (DeleteKey k) = None"

fun read_slot :: "slot \<Rightarrow> Object \<Rightarrow> string option" where
  "read_slot (Attribute ContentTypeAttr) obj = Object.ContentType obj"
| "read_slot (Attribute ContentEncodingAttr) obj = Object.ContentEncoding obj"
| "read_slot (Attribute ContentLanguageAttr) obj = Object.ContentLanguage obj"
| "read_slot (Attribute CacheControlAttr) obj = Object.CacheControl obj"
| "read_slot (Key k) obj = Object.Metadata obj k"

fun last_write :: "mutation list \<Rightarrow> slot \<Rightarrow> string option option" where
  "last_write [] sl = None"
| "last_write (m # ms) sl =
     (case last_write ms sl of
        Some v \<Rightarrow> Some v
      | None \<Rightarrow> if target m = sl then Some (written m) else None)"

subsection \<open>Creating objects\<close>

text \<open>
  \<^verbatim>\<open>CreateObjectRequest\<close>, as declared: \<^verbatim>\<open>Contents\<close> is the reader's bytes (\<^term>\<open>None\<close> for a
  \<^verbatim>\<open>nil\<close> reader), \<^verbatim>\<open>GenerationPrecondition\<close> is a \<^verbatim>\<open>*int64\<close>.
\<close>

record CreateObjectRequest =
  Name :: string
  ContentType :: string
  ContentLanguage :: string
  ContentEncoding :: string
  CacheControl :: string
  Metadata :: "string \<rightharpoonup> string"
  Contents :: "string option"
  GenerationPrecondition :: "int option"

text \<open>
  Modelled from the spec: the remote store behind \<^verbatim>\<open>RemoteWrite\<close>, which is not part of
  the source. A bucket holds the live Object Record of each name and hands out
  generations in increasing order.
\<close>

record remote_bucket =
  contents :: "string \<rightharpoonup> Object"
  next_generation :: int

text \<open>
  Modelled from the spec: the conditional write. With a precondition the write goes ahead
  only if the object's current generation equals the given value, where 0 means that the
  object must not currently exist (so documented on
  \<^verbatim>\<open>CreateObjectRequest.GenerationPrecondition\<close>); a mismatch is \<^verbatim>\<open>PreconditionFailed\<close>.
\<close>

definition precondition_holds :: "remote_bucket \<Rightarrow> string \<Rightarrow> int option \<Rightarrow> bool" where
  "precondition_holds st n pre =
     (case pre of
        None \<Rightarrow> True
      | Some g \<Rightarrow>
          if g = 0 then contents st n = None
          else (case contents st n of
                  None \<Rightarrow> False
                | Some obj \<Rightarrow> Generation obj = g))"

definition attribute_value :: "string \<Rightarrow> string option" where
  "attribute_value v = (if v = [] then None else Some v)"

definition RemoteWrite :: "CreateObjectRequest \<Rightarrow> (Object, remote_bucket) remote" where
  "RemoteWrite req st =
     (if \<not> precondition_holds st (CreateObjectRequest.Name req) (GenerationPrecondition req)
      then (Inl PreconditionFailed, st)
      else
        (let obj =
           \<lparr>Object.Name = CreateObjectRequest.Name req,
            Generation = next_generation st,
            Object.ContentType = attribute_value (CreateObjectRequest.ContentType req),
            Object.ContentLanguage = attribute_value (CreateObjectRequest.ContentLanguage req),
            Object.ContentEncoding = attribute_value (CreateObjectRequest.ContentEncoding req),
            Object.CacheControl = attribute_value (CreateObjectRequest.CacheControl req),
            Object.Metadata = CreateObjectRequest.Metadata req\<rparr>
         in (Inr obj,
             st\<lparr>contents := (contents st)(CreateObjectRequest.Name req \<mapsto> obj),
                next_generation := next_generation st + 1\<rparr>)))"

text \<open>
  Modelled from the spec: the facade's \<^verbatim>\<open>CreateObject\<close>, which the source does not have
  (its \<^verbatim>\<open>Bucket\<close> interface offers \<^verbatim>\<open>NewWriter\<close>). It validates the name, failing with
  \<^verbatim>\<open>InvalidArgument\<close> without a call to the store, and forwards the request with its
  generation precondition to the store.
\<close>

definition CreateObject :: "CreateObjectRequest \<Rightarrow> (Object, remote_bucket) remote" where
  "CreateObject req st =
     (if \<not> valid_name (CreateObjectRequest.Name req) then (Inl InvalidArgument, st)
      else RemoteWrite req st)"

text \<open>
  The current generation of a name as \<^verbatim>\<open>CreateObjectRequest.GenerationPrecondition\<close> documents
  it: zero means that the object does not exist.
\<close>

definition current_generation :: "remote_bucket \<Rightarrow> string \<Rightarrow> int" where
  "current_generation st n = (case contents st n of None \<Rightarrow> 0 | Some obj \<Rightarrow> Generation obj)"

text \<open>The objects of a bucket have legal names and generations that were handed out.\<close>

definition well_formed :: "remote_bucket \<Rightarrow> bool" where
  "well_formed st =
     (0 < next_generation st
      \<and> (\<forall>n \<in> dom (contents st).
        valid_name n
        \<and> (case contents st n of
              None \<Rightarrow> False
            | Some obj \<Rightarrow> Object.Name obj = n \<and> 0 < Generation obj \<and> Generation obj < next_generation st)))"

subsection \<open>Test doubles for the remote store\<close>

text \<open>
  A double for \<^verbatim>\<open>storage.NewReader\<close> whose state is the list of the calls it has
  observed; it answers every call with a reader over the object's name.
\<close>

definition recording_NewReader ::
  "Context \<Rightarrow> string \<Rightarrow> string \<Rightarrow> (string, (Context \<times> string \<times> string) list) remote" where
  "recording_NewReader ctx bucketName objectName calls =
     (Inr objectName, calls @ [(ctx, bucketName, objectName)])"

text \<open>
  A double for \<^verbatim>\<open>storage.ListObjects\<close> that answers from a script: the page listed under
  the request's continuation token, in the order the script has it. Its state is the list
  of the calls it has observed.
\<close>

definition scripted_ListObjects ::
  "(string \<times> Listing) list \<Rightarrow> Context \<Rightarrow> string \<Rightarrow> ListObjectsRequest
     \<Rightarrow> (Listing, (Context \<times> string \<times> ListObjectsRequest) list) remote" where
  "scripted_ListObjects pages ctx bucketName q calls =
     (case map_of pages (ListObjectsRequest.ContinuationToken q) of
        None \<Rightarrow> (Inl NotFound, calls @ [(ctx, bucketName, q)])
      | Some page \<Rightarrow> (Inr page, calls @ [(ctx, bucketName, q)]))"

text \<open>
  A double for \<^verbatim>\<open>storage.ListObjects\<close> over a bucket whose state is its contents: it
  answers with every matching entry in one page, and hands out a cursor all the same.
\<close>

definition eager_cursor_ListObjects ::
  "Context \<Rightarrow> string \<Rightarrow> ListObjectsRequest \<Rightarrow> (Listing, Object list) remote" where
  "eager_cursor_ListObjects ctx bucketName q held =
     (Inr \<lparr>Objects = filter (\<lambda>obj. matches q obj \<and> collapsed_run q (Object.Name obj) = None) held,
           CollapsedRuns = remdups (List.map_filter (\<lambda>obj. collapsed_run q (Object.Name obj)) held),
           Listing.ContinuationToken = ''more''\<rparr>,
      held)"

definition mk_object :: "string \<Rightarrow> int \<Rightarrow> Object" where
  "mk_object n g =
     \<lparr>Object.Name = n, Generation = g, Object.ContentType = None,
      Object.ContentLanguage = None, Object.ContentEncoding = None,
      Object.CacheControl = None, Object.Metadata = Map.empty\<rparr>"

definition first_page_request :: "string \<Rightarrow> string \<Rightarrow> ListObjectsRequest" where
  "first_page_request p d =
     \<lparr>Prefix = p, Delimiter = d, ListObjectsRequest.ContinuationToken = [], MaxResults = 2\<rparr>"

text \<open>
  The pages of the listing \<^verbatim>\<open>{prefix: "a/", delimiter: "/", maxResults: 2}\<close> of a bucket
  holding \<^verbatim>\<open>a/x\<close>, \<^verbatim>\<open>a/y/1\<close>, \<^verbatim>\<open>a/y/2\<close> and \<^verbatim>\<open>a/z\<close>, and the script that serves them.
\<close>

definition example_page1 :: Listing where
  "example_page1 =
     \<lparr>Objects = [mk_object ''a/x'' 1], CollapsedRuns = [''a/y/''],
      Listing.ContinuationToken = ''t1''\<rparr>"

definition example_page2 :: Listing where
  "example_page2 =
     \<lparr>Objects = [mk_object ''a/z'' 1], CollapsedRuns = [],
      Listing.ContinuationToken = []\<rparr>"

definition example_script :: "(string \<times> Listing) list" where
  "example_script = [([], example_page1), (''t1'', example_page2)]"

text \<open>Pages as a store that breaks the ordering contract may return them.\<close>

definition unordered_page :: Listing where
  "unordered_page =
     \<lparr>Objects = [mk_object ''b'' 1, mk_object ''a'' 1], CollapsedRuns = [],
      Listing.ContinuationToken = []\<rparr>"

definition unordered_runs_page :: Listing where
  "unordered_runs_page =
     \<lparr>Objects = [], CollapsedRuns = [''b/'', ''a/''],
      Listing.ContinuationToken = []\<rparr>"

text \<open>
  Pages of a store that keeps the per-page and the page-to-page ordering and answers the
  second request with an empty page and a cursor; and the script that skips that page.
\<close>

definition gap_page1 :: Listing where
  "gap_page1 =
     \<lparr>Objects = [mk_object ''b'' 1], CollapsedRuns = [], Listing.ContinuationToken = ''t1''\<rparr>"

definition gap_page2 :: Listing where
  "gap_page2 = \<lparr>Objects = [], CollapsedRuns = [], Listing.ContinuationToken = ''t2''\<rparr>"

definition gap_page3 :: Listing where
  "gap_page3 =
     \<lparr>Objects = [mk_object ''a'' 1], CollapsedRuns = [], Listing.ContinuationToken = []\<rparr>"

definition gap_script :: "(string \<times> Listing) list" where
  "gap_script = [([], gap_page1), (''t1'', gap_page2), (''t2'', gap_page3)]"

definition descending_script :: "(string \<times> Listing) list" where
  "descending_script = [([], gap_page1), (''t1'', gap_page3)]"

text \<open>The only page of the listing of a bucket that holds \<^verbatim>\<open>a/x\<close> alone.\<close>

definition single_object_page :: Listing where
  "single_object_page =
     \<lparr>Objects = [mk_object ''a/x'' 1], CollapsedRuns = [], Listing.ContinuationToken = []\<rparr>"

text \<open>Buckets, requests and objects to run the resolver and the conditional write on.\<close>

definition empty_bucket :: remote_bucket where
  "empty_bucket = \<lparr>contents = Map.empty, next_generation = 1\<rparr>"

definition create_request :: "string \<Rightarrow> int option \<Rightarrow> CreateObjectRequest" where
  "create_request n pre =
     \<lparr>CreateObjectRequest.Name = n, CreateObjectRequest.ContentType = ''text/plain'',
      CreateObjectRequest.ContentLanguage = [], CreateObjectRequest.ContentEncoding = [],
      CreateObjectRequest.CacheControl = [], CreateObjectRequest.Metadata = Map.empty,
      Contents = Some ''hello'', GenerationPrecondition = pre\<rparr>"

definition bucket_with_object :: remote_bucket where
  "bucket_with_object =
     \<lparr>contents = [''a/x'' \<mapsto> mk_object ''a/x'' 1], next_generation = 2\<rparr>"

definition example_update :: UpdateObjectRequest where
  "example_update =
     \<lparr>UpdateObjectRequest.Name = ''a/x'',
      UpdateObjectRequest.ContentType = None,
      UpdateObjectRequest.ContentEncoding = Some ''gzip'',
      UpdateObjectRequest.ContentLanguage = Some [],
      UpdateObjectRequest.CacheControl = None,
      UpdateObjectRequest.Metadata = [(''k'', Some ''v''), (''j'', None)]\<rparr>"

definition example_object :: Object where
  "example_object =
     \<lparr>Object.Name = ''a/x'', Generation = 1, Object.ContentType = Some ''text/plain'',
      Object.ContentLanguage = Some ''en'', Object.ContentEncoding = None,
      Object.CacheControl = Some ''no-cache'', Object.Metadata = [''j'' \<mapsto> ''old'']\<rparr>"

definition patched_object :: Object where
  "patched_object =
     \<lparr>Object.Name = ''a/x'', Generation = 1, Object.ContentType = Some ''text/plain'',
      Object.ContentLanguage = None, Object.ContentEncoding = Some ''gzip'',
      Object.CacheControl = Some ''no-cache'', Object.Metadata = [''k'' \<mapsto> ''v'']\<rparr>"

definition test_bucket :: bucket where
  "test_bucket = \<lparr>projID = ''proj'', client = 7, name = ''bkt''\<rparr>"

section \<open>Properties\<close>

subsection \<open>The methods delegate\<close>

lemma ListObjects_delegates:
  "ListObjects st b ctx q s = st (WithContext ctx (projID b) (client b)) (name b) q s"
  by (simp add: ListObjects_def)

lemma NewReader_delegates:
  "NewReader st b ctx n s = st (WithContext ctx (projID b) (client b)) (name b) n s"
  by (simp add: NewReader_def)

lemma NewWriter_Some:
  "NewWriter b ctx (Some a) s = (Inr (Inr \<lparr>wrapped = \<lparr>ObjectAttrs = a\<rparr>\<rparr>), s)"
  by (simp add: NewWriter_def)

lemma NewWriter_None:
  "NewWriter b ctx None s = (Inl NilPointerDereference, s)"
  by (simp add: NewWriter_def)

lemma mk_object_simps:
  "Object.Name (mk_object n g) = n" "Generation (mk_object n g) = g"
  by (simp_all add: mk_object_def)

subsection \<open>ListObjects\<close>

text \<open>
  C9: the continuation token of the listing that \<^verbatim>\<open>ListObjects\<close> returns is the page cursor
  that the remote store returned, unchanged; and the store is called once, with the
  caller's request (its token included) as it was given. \<^const>\<open>ListObjects\<close> is polymorphic
  in the request and the result, so it can neither read a token nor make one.
\<close>

theorem ListObjects_token_verbatim:
  assumes "st (WithContext ctx (projID b) (client b)) (name b) q s = (Inr page, s')"
  shows "(\<exists>l. ListObjects st b ctx q s = (Inr l, s')
              \<and> Listing.ContinuationToken l = Listing.ContinuationToken page)
         \<and> snd (ListObjects (scripted_ListObjects pages) b ctx q calls)
             = calls @ [(WithContext ctx (projID b) (client b), name b, q)]"
  using assms
  by (simp add: ListObjects_def scripted_ListObjects_def split: option.split)

theorem ListObjects_token_verbatim_witness:
  "scripted_ListObjects example_script
      (WithContext Background (projID test_bucket) (client test_bucket)) (name test_bucket)
      (first_page_request ''a/'' ''/'') []
     = (Inr example_page1,
        [(WithContext Background ''proj'' 7, ''bkt'', first_page_request ''a/'' ''/'')])
   \<and> (\<exists>l. ListObjects (scripted_ListObjects example_script) test_bucket Background
             (first_page_request ''a/'' ''/'') []
           = (Inr l, [(WithContext Background ''proj'' 7, ''bkt'', first_page_request ''a/'' ''/'')])
         \<and> Listing.ContinuationToken l = ''t1'')"
proof -
  have h: "scripted_ListObjects example_script
      (WithContext Background (projID test_bucket) (client test_bucket)) (name test_bucket)
      (first_page_request ''a/'' ''/'') []
     = (Inr example_page1,
        [(WithContext Background ''proj'' 7, ''bkt'', first_page_request ''a/'' ''/'')])"
    by (simp add: scripted_ListObjects_def example_script_def first_page_request_def
        test_bucket_def)
  have "Listing.ContinuationToken example_page1 = ''t1''"
    by (simp add: example_page1_def)
  with h ListObjects_token_verbatim
    [where st = "scripted_ListObjects example_script" and b = test_bucket
      and ctx = Background and q = "first_page_request ''a/'' ''/''" and s = "[]", OF h]
  show ?thesis
    by simp
qed

text \<open>
  C2, as amended: \<^verbatim>\<open>ListObjects\<close> returns the page of the remote store with its entries in
  the order in which the store returned them; the objects and the collapsed runs of the
  listing are strictly increasing exactly when those of the store's page are.
\<close>

theorem ListObjects_keeps_store_order:
  assumes "st (WithContext ctx (projID b) (client b)) (name b) q s = (Inr page, s')"
  shows "\<exists>l. ListObjects st b ctx q s = (Inr l, s')
             \<and> Objects l = Objects page \<and> CollapsedRuns l = CollapsedRuns page
             \<and> strictly_increasing_objects (Objects l) = strictly_increasing_objects (Objects page)
             \<and> strictly_increasing_runs (CollapsedRuns l)
                 = strictly_increasing_runs (CollapsedRuns page)"
  using assms by (simp add: ListObjects_def)

theorem ListObjects_keeps_store_order_witness:
  "scripted_ListObjects example_script
      (WithContext Background (projID test_bucket) (client test_bucket)) (name test_bucket)
      (first_page_request ''a/'' ''/'') []
     = (Inr example_page1,
        [(WithContext Background ''proj'' 7, ''bkt'', first_page_request ''a/'' ''/'')])
   \<and> (\<exists>l. ListObjects (scripted_ListObjects example_script) test_bucket Background
             (first_page_request ''a/'' ''/'') []
           = (Inr l, [(WithContext Background ''proj'' 7, ''bkt'', first_page_request ''a/'' ''/'')])
         \<and> Objects l = [mk_object ''a/x'' 1] \<and> CollapsedRuns l = [''a/y/''])"
proof -
  have h: "scripted_ListObjects example_script
      (WithContext Background (projID test_bucket) (client test_bucket)) (name test_bucket)
      (first_page_request ''a/'' ''/'') []
     = (Inr example_page1,
        [(WithContext Background ''proj'' 7, ''bkt'', first_page_request ''a/'' ''/'')])"
    by (simp add: scripted_ListObjects_def example_script_def first_page_request_def
        test_bucket_def)
  have "Objects example_page1 = [mk_object ''a/x'' 1]" "CollapsedRuns example_page1 = [''a/y/'']"
    by (simp_all add: example_page1_def)
  with h ListObjects_keeps_store_order
    [where st = "scripted_ListObjects example_script" and b = test_bucket
      and ctx = Background and q = "first_page_request ''a/'' ''/''" and s = "[]", OF h]
  show ?thesis
    by auto
qed

text \<open>
  C2 as stated fails: a store page that lists \<^verbatim>\<open>b\<close> before \<^verbatim>\<open>a\<close> comes back from
  \<^verbatim>\<open>ListObjects\<close> as it is, and its objects are not strictly increasing.
\<close>

theorem ListObjects_unordered_page_counterexample:
  "fst (ListObjects (scripted_ListObjects [([], unordered_page)]) test_bucket Background
          (first_page_request [] []) [])
     = Inr unordered_page
   \<and> \<not> strictly_increasing_objects (Objects unordered_page)"
  by (simp add: ListObjects_def scripted_ListObjects_def first_page_request_def
      unordered_page_def strictly_increasing_objects_def object_key_def mk_object_simps)

text \<open>
  C3, as amended: \<^verbatim>\<open>ListObjects\<close> never reorders the entries of a store page. A page that
  violates the strict ordering is returned unchanged with a nil error, and \<^verbatim>\<open>ListObjects\<close>
  reports \<^verbatim>\<open>CorruptListing\<close> only when the remote store itself returned that error.
\<close>

theorem ListObjects_never_reorders:
  assumes "st (WithContext ctx (projID b) (client b)) (name b) q s = (Inr page, s')"
      and "\<not> page_ordered page"
  shows "ListObjects st b ctx q s = (Inr page, s')
         \<and> (fst (ListObjects st' b ctx q s) = Inl CorruptListing)
             = (fst (st' (WithContext ctx (projID b) (client b)) (name b) q s) = Inl CorruptListing)"
  using assms by (simp add: ListObjects_def)

theorem ListObjects_never_reorders_witness:
  "scripted_ListObjects [([], unordered_runs_page)]
      (WithContext Background (projID test_bucket) (client test_bucket)) (name test_bucket)
      (first_page_request [] []) []
     = (Inr unordered_runs_page,
        [(WithContext Background ''proj'' 7, ''bkt'', first_page_request [] [])])
   \<and> \<not> page_ordered unordered_runs_page
   \<and> ListObjects (scripted_ListObjects [([], unordered_runs_page)]) test_bucket Background
        (first_page_request [] []) []
     = (Inr unordered_runs_page,
        [(WithContext Background ''proj'' 7, ''bkt'', first_page_request [] [])])"
proof -
  have h: "scripted_ListObjects [([], unordered_runs_page)]
      (WithContext Background (projID test_bucket) (client test_bucket)) (name test_bucket)
      (first_page_request [] []) []
     = (Inr unordered_runs_page,
        [(WithContext Background ''proj'' 7, ''bkt'', first_page_request [] [])])"
    by (simp add: scripted_ListObjects_def first_page_request_def test_bucket_def)
  have u: "\<not> page_ordered unordered_runs_page"
    by (simp add: page_ordered_def unordered_runs_page_def strictly_increasing_runs_def)
  from h u ListObjects_never_reorders
    [where st = "scripted_ListObjects [([], unordered_runs_page)]" and b = test_bucket
      and ctx = Background and q = "first_page_request [] []" and s = "[]", OF h u]
  show ?thesis
    by blast
qed

text \<open>
  C3 as stated fails: for a store page whose collapsed runs are out of order,
  \<^verbatim>\<open>ListObjects\<close> does not fail with \<^verbatim>\<open>CorruptListing\<close>; it returns the page.
\<close>

theorem ListObjects_no_CorruptListing_counterexample:
  "\<not> page_ordered unordered_runs_page
   \<and> fst (ListObjects (scripted_ListObjects [([], unordered_runs_page)]) test_bucket Background
            (first_page_request [] []) [])
       \<noteq> Inl CorruptListing
   \<and> fst (ListObjects (scripted_ListObjects [([], unordered_runs_page)]) test_bucket Background
            (first_page_request [] []) [])
       = Inr unordered_runs_page"
  by (simp add: ListObjects_def scripted_ListObjects_def first_page_request_def
      page_ordered_def unordered_runs_page_def strictly_increasing_runs_def)

text \<open>
  The example listing: of the names \<^verbatim>\<open>a/x\<close>, \<^verbatim>\<open>a/y/1\<close>, \<^verbatim>\<open>a/y/2\<close> and \<^verbatim>\<open>a/z\<close> under the prefix
  \<^verbatim>\<open>a/\<close> with the delimiter \<^verbatim>\<open>/\<close>, the two in the middle are collapsed into \<^verbatim>\<open>a/y/\<close>.
\<close>

lemma collapsed_run_example:
  "map (collapsed_run (first_page_request ''a/'' ''/'')) [''a/x'', ''a/y/1'', ''a/y/2'', ''a/z'']
     = [None, Some ''a/y/'', Some ''a/y/'', None]"
  by (simp add: collapsed_run_def first_page_request_def)

text \<open>
  C8, as amended: the continuation token of the listing that \<^verbatim>\<open>ListObjects\<close> returns is
  empty exactly when the page cursor returned by the remote store is empty. Whether an
  empty cursor goes with the final page is the store's contract: for every notion \<open>final\<close>
  of a final page, when the store's page has an empty cursor exactly if it is final, so
  has the listing.
\<close>

theorem ListObjects_token_empty_iff_store_cursor_empty:
  assumes "st (WithContext ctx (projID b) (client b)) (name b) q s = (Inr page, s')"
  shows "\<exists>l. ListObjects st b ctx q s = (Inr l, s')
            \<and> (Listing.ContinuationToken l = []) = (Listing.ContinuationToken page = [])
            \<and> ((Listing.ContinuationToken page = []) = final page
                 \<longrightarrow> (Listing.ContinuationToken l = []) = final l)"
  using assms by (simp add: ListObjects_def)

lemma full_listing_single_object_page:
  "full_listing [mk_object ''a/x'' 1] (first_page_request ''a/'' ''/'') single_object_page"
  by (simp add: full_listing_def single_object_page_def matches_def collapsed_run_def
      first_page_request_def mk_object_simps List.map_filter_simps)

theorem ListObjects_token_empty_iff_store_cursor_empty_witness:
  "scripted_ListObjects [([], single_object_page)]
      (WithContext Background (projID test_bucket) (client test_bucket)) (name test_bucket)
      (first_page_request ''a/'' ''/'') []
     = (Inr single_object_page,
        [(WithContext Background ''proj'' 7, ''bkt'', first_page_request ''a/'' ''/'')])
   \<and> (\<exists>l. ListObjects (scripted_ListObjects [([], single_object_page)]) test_bucket Background
             (first_page_request ''a/'' ''/'') []
           = (Inr l, [(WithContext Background ''proj'' 7, ''bkt'', first_page_request ''a/'' ''/'')])
         \<and> Listing.ContinuationToken l = []
         \<and> full_listing [mk_object ''a/x'' 1] (first_page_request ''a/'' ''/'') l)"
proof -
  have h: "scripted_ListObjects [([], single_object_page)]
      (WithContext Background (projID test_bucket) (client test_bucket)) (name test_bucket)
      (first_page_request ''a/'' ''/'') []
     = (Inr single_object_page,
        [(WithContext Background ''proj'' 7, ''bkt'', first_page_request ''a/'' ''/'')])"
    by (simp add: scripted_ListObjects_def first_page_request_def test_bucket_def)
  have t: "Listing.ContinuationToken single_object_page = []"
    by (simp add: single_object_page_def)
  from h t full_listing_single_object_page ListObjects_token_empty_iff_store_cursor_empty
    [where st = "scripted_ListObjects [([], single_object_page)]" and b = test_bucket
      and ctx = Background and q = "first_page_request ''a/'' ''/''" and s = "[]"
      and final = "full_listing [mk_object ''a/x'' 1] (first_page_request ''a/'' ''/'')", OF h]
  show ?thesis
    by auto
qed

text \<open>
  C8 as stated fails: against a store that answers with the full set of matching objects
  and hands out a cursor all the same, \<^verbatim>\<open>ListObjects\<close> returns a listing that represents
  the full set and carries a non-empty token.
\<close>

theorem ListObjects_cursor_on_full_listing_counterexample:
  "fst (ListObjects eager_cursor_ListObjects test_bucket Background (first_page_request [] [])
          [mk_object ''a'' 1])
     = Inr \<lparr>Objects = [mk_object ''a'' 1], CollapsedRuns = [], Listing.ContinuationToken = ''more''\<rparr>
   \<and> full_listing [mk_object ''a'' 1] (first_page_request [] [])
       \<lparr>Objects = [mk_object ''a'' 1], CollapsedRuns = [], Listing.ContinuationToken = ''more''\<rparr>
   \<and> Listing.ContinuationToken
       \<lparr>Objects = [mk_object ''a'' 1], CollapsedRuns = [], Listing.ContinuationToken = ''more''\<rparr> \<noteq> []"
  by (simp add: ListObjects_def eager_cursor_ListObjects_def full_listing_def matches_def
      collapsed_run_def first_page_request_def mk_object_simps List.map_filter_simps)

subsection \<open>Continuation sequences\<close>

lemma continues_in_order_trans:
  assumes "continues_in_order R1 R2" and "continues_in_order R2 R3" and "\<not> empty_page R2"
  shows "continues_in_order R1 R3"
proof -
  from assms(3) obtain x where x: "x \<in> Object.Name ` set (Objects R2) \<union> set (CollapsedRuns R2)"
    unfolding empty_page_def by (cases "Objects R2"; cases "CollapsedRuns R2") auto
  have below: "\<forall>o1 \<in> set (Objects R1). Object.Name o1 < x" "\<forall>r \<in> set (CollapsedRuns R1). r < x"
    using assms(1) x unfolding continues_in_order_def by auto
  have above: "\<forall>o3 \<in> set (Objects R3). x < Object.Name o3" "\<forall>p \<in> set (CollapsedRuns R3). x < p"
    using assms(2) x unfolding continues_in_order_def by auto
  show ?thesis
    unfolding continues_in_order_def using below above by (meson less_trans)
qed

lemma successively_all_pairs:
  assumes "successively continues_in_order Rs"
      and "list_all (\<lambda>R. \<not> empty_page R) (interior Rs)"
  shows "sorted_wrt continues_in_order Rs"
  using assms
proof (induction Rs rule: induct_list012)
  case 1
  then show ?case by simp
next
  case (2 R)
  then show ?case by simp
next
  case (3 R1 R2 Rs)
  have step: "continues_in_order R1 R2" and rest: "successively continues_in_order (R2 # Rs)"
    using "3.prems"(1) by simp_all
  have int: "list_all (\<lambda>R. \<not> empty_page R) (interior (R2 # Rs))"
    using "3.prems"(2) by (cases Rs) (simp_all add: interior_def)
  have tail: "sorted_wrt continues_in_order (R2 # Rs)"
    using "3.IH"(2) rest int by blast
  have "continues_in_order R1 R" if "R \<in> set Rs" for R
  proof -
    from that have "Rs \<noteq> []" by auto
    then have "\<not> empty_page R2"
      using "3.prems"(2) by (cases Rs) (simp_all add: interior_def)
    moreover have "continues_in_order R2 R"
      using tail that by simp
    ultimately show ?thesis
      using step continues_in_order_trans by blast
  qed
  with step tail show ?case by auto
qed

lemma object_key_less:
  "Object.Name o1 < Object.Name o2 \<Longrightarrow> object_key o1 < object_key o2"
  by (simp add: object_key_def less_prod_def)

lemma concat_objects_increasing:
  assumes "sorted_wrt continues_in_order Rs" and "list_all page_ordered Rs"
  shows "strictly_increasing_objects (concat (map Objects Rs))"
  using assms
proof (induction Rs)
  case Nil
  then show ?case by (simp add: strictly_increasing_objects_def)
next
  case (Cons R Rs)
  have here: "sorted_wrt (<) (map object_key (Objects R))"
    using Cons.prems(2) by (simp add: page_ordered_def strictly_increasing_objects_def)
  have later: "sorted_wrt (<) (map object_key (concat (map Objects Rs)))"
    using Cons by (simp add: strictly_increasing_objects_def)
  have across: "object_key o1 < object_key o2"
    if "o1 \<in> set (Objects R)" and "o2 \<in> set (concat (map Objects Rs))" for o1 o2
  proof -
    from that(2) obtain R' where "R' \<in> set Rs" and "o2 \<in> set (Objects R')" by auto
    with Cons.prems(1) that(1) have "Object.Name o1 < Object.Name o2"
      by (auto simp: continues_in_order_def)
    then show ?thesis by (rule object_key_less)
  qed
  show ?case
    unfolding strictly_increasing_objects_def
    using here later across by (auto simp: sorted_wrt_append)
qed

lemma concat_runs_increasing:
  assumes "sorted_wrt continues_in_order Rs" and "list_all page_ordered Rs"
  shows "strictly_increasing_runs (concat (map CollapsedRuns Rs))"
  using assms
proof (induction Rs)
  case Nil
  then show ?case by (simp add: strictly_increasing_runs_def)
next
  case (Cons R Rs)
  have here: "sorted_wrt (<) (CollapsedRuns R)"
    using Cons.prems(2) by (simp add: page_ordered_def strictly_increasing_runs_def)
  have later: "sorted_wrt (<) (concat (map CollapsedRuns Rs))"
    using Cons by (simp add: strictly_increasing_runs_def)
  have across: "r < p"
    if "r \<in> set (CollapsedRuns R)" and "p \<in> set (concat (map CollapsedRuns Rs))" for r p
  proof -
    from that(2) obtain R' where "R' \<in> set Rs" and "p \<in> set (CollapsedRuns R')" by auto
    with Cons.prems(1) that(1) show ?thesis
      by (auto simp: continues_in_order_def)
  qed
  show ?case
    unfolding strictly_increasing_runs_def
    using here later across by (auto simp: sorted_wrt_append)
qed

lemma ListObjects_eta:
  "ListObjects st b ctx = st (WithContext ctx (projID b) (client b)) (name b)"
  by (rule ext)+ (simp add: ListObjects_def)

lemma example_sequence:
  "continuation_sequence (ListObjects (scripted_ListObjects example_script) test_bucket Background)
     (first_page_request ''a/'' ''/'') [] [example_page1, example_page2]"
  by (simp add: ListObjects_def scripted_ListObjects_def example_script_def
      first_page_request_def example_page1_def example_page2_def)

lemma example_ordered: "list_all page_ordered [example_page1, example_page2]"
  by (simp add: page_ordered_def example_page1_def example_page2_def
      strictly_increasing_objects_def strictly_increasing_runs_def)

lemma example_chain: "successively continues_in_order [example_page1, example_page2]"
  by (simp add: continues_in_order_def example_page1_def example_page2_def mk_object_simps)

lemma example_interior: "list_all (\<lambda>R. \<not> empty_page R) (interior [example_page1, example_page2])"
  by (simp add: interior_def)

text \<open>
  C1, as amended: \<^verbatim>\<open>ListObjects\<close> returns the pages of the remote store as they are, so a
  continuation sequence of \<^verbatim>\<open>ListObjects\<close> is a continuation sequence of the store. When
  each of its pages is strictly increasing, each page and its successor satisfy the
  page-to-page ordering, and no page between the first and the last is entirely empty,
  then every earlier page and every later page satisfy the page-to-page ordering, and the
  concatenation of all objects sequences is strictly increasing under (name, generation)
  order, and likewise the concatenation of all collapsed runs.
\<close>

theorem continuation_sequence_strictly_increasing:
  assumes "continuation_sequence (ListObjects st b ctx) q s Rs"
      and "list_all page_ordered Rs"
      and "successively continues_in_order Rs"
      and "list_all (\<lambda>R. \<not> empty_page R) (interior Rs)"
  shows "continuation_sequence (st (WithContext ctx (projID b) (client b)) (name b)) q s Rs
         \<and> sorted_wrt continues_in_order Rs
         \<and> strictly_increasing_objects (concat (map Objects Rs))
         \<and> strictly_increasing_runs (concat (map CollapsedRuns Rs))"
proof -
  have pairs: "sorted_wrt continues_in_order Rs"
    using assms(3,4) by (rule successively_all_pairs)
  show ?thesis
    using assms(1,2) pairs concat_objects_increasing concat_runs_increasing
    by (simp add: ListObjects_eta)
qed

theorem continuation_sequence_strictly_increasing_witness:
  "continuation_sequence (ListObjects (scripted_ListObjects example_script) test_bucket Background)
     (first_page_request ''a/'' ''/'') [] [example_page1, example_page2]
   \<and> list_all page_ordered [example_page1, example_page2]
   \<and> successively continues_in_order [example_page1, example_page2]
   \<and> list_all (\<lambda>R. \<not> empty_page R) (interior [example_page1, example_page2])
   \<and> strictly_increasing_objects [mk_object ''a/x'' 1, mk_object ''a/z'' 1]
   \<and> strictly_increasing_runs [''a/y/'']"
  using continuation_sequence_strictly_increasing
    [OF example_sequence example_ordered example_chain example_interior]
    example_sequence example_ordered example_chain example_interior
  by (simp add: example_page1_def example_page2_def)

text \<open>
  C1 as stated fails. A store may answer a continued request with an empty page and a
  cursor: the pages \<^verbatim>\<open>[b]\<close>, \<^verbatim>\<open>[]\<close>, \<^verbatim>\<open>[a]\<close> are each strictly increasing and each page and its
  successor satisfy the page-to-page ordering, yet the concatenation \<^verbatim>\<open>[b, a]\<close> is not
  strictly increasing. And \<^verbatim>\<open>ListObjects\<close> does not enforce the page-to-page ordering: of a
  store that answers \<^verbatim>\<open>[b]\<close> and then \<^verbatim>\<open>[a]\<close> it returns just these pages.
\<close>

theorem continuation_sequence_gap_counterexample:
  "continuation_sequence (ListObjects (scripted_ListObjects gap_script) test_bucket Background)
     (first_page_request [] []) [] [gap_page1, gap_page2, gap_page3]
   \<and> page_ordered gap_page1 \<and> page_ordered gap_page2 \<and> page_ordered gap_page3
   \<and> continues_in_order gap_page1 gap_page2 \<and> continues_in_order gap_page2 gap_page3
   \<and> \<not> strictly_increasing_objects (concat (map Objects [gap_page1, gap_page2, gap_page3]))
   \<and> continuation_sequence
       (ListObjects (scripted_ListObjects descending_script) test_bucket Background)
       (first_page_request [] []) [] [gap_page1, gap_page3]
   \<and> \<not> continues_in_order gap_page1 gap_page3"
  by (simp add: ListObjects_def scripted_ListObjects_def gap_script_def descending_script_def
      first_page_request_def gap_page1_def gap_page2_def gap_page3_def page_ordered_def
      strictly_increasing_objects_def strictly_increasing_runs_def continues_in_order_def
      object_key_def mk_object_simps)

subsection \<open>NewReader and object names\<close>

text \<open>
  C4, as amended: no operation of the bucket validates an object name. For every name
  (empty, longer than 1024 bytes or holding a line feed included) \<^verbatim>\<open>NewReader\<close> calls the
  remote store exactly once with the name unchanged and returns the store's result;
  \<^verbatim>\<open>NewWriter\<close> returns without a call to the store, and never with \<^verbatim>\<open>InvalidArgument\<close>.
\<close>

theorem NewReader_forwards_every_name:
  "NewReader st b ctx n s = st (WithContext ctx (projID b) (client b)) (name b) n s
   \<and> NewReader recording_NewReader b ctx n calls
       = (Inr n, calls @ [(WithContext ctx (projID b) (client b), name b, n)])
   \<and> snd (NewWriter b ctx attrs s) = s
   \<and> fst (NewWriter b ctx attrs s) \<noteq> Inr (Inl InvalidArgument)"
  by (simp add: NewReader_def recording_NewReader_def NewWriter_def split: option.split)

text \<open>
  C4 as stated fails: for the empty name, and for a name with a line feed, the store
  double observes the call of \<^verbatim>\<open>NewReader\<close>, and the result is the double's reader, not
  \<^verbatim>\<open>InvalidArgument\<close>.
\<close>

theorem NewReader_empty_name_counterexample:
  "\<not> valid_name []
   \<and> fst (NewReader recording_NewReader test_bucket Background [] []) \<noteq> Inl InvalidArgument
   \<and> snd (NewReader recording_NewReader test_bucket Background [] [])
       = [(WithContext Background ''proj'' 7, ''bkt'', [])]
   \<and> \<not> valid_name [CHR ''a'', CHR 0x0A]
   \<and> fst (NewReader recording_NewReader test_bucket Background [CHR ''a'', CHR 0x0A] [])
       = Inr [CHR ''a'', CHR 0x0A]"
  by (simp add: valid_name_def NewReader_def recording_NewReader_def test_bucket_def)

subsection \<open>The metadata patch resolver\<close>

lemma read_set_attribute:
  "read_slot sl (set_attribute a v obj) = (if sl = Attribute a then v else read_slot sl obj)"
proof (cases sl)
  case (Attribute a')
  then show ?thesis by (cases a; cases a') simp_all
next
  case (Key k)
  then show ?thesis by (cases a) simp_all
qed

lemma read_update_Metadata:
  "read_slot sl (obj\<lparr>Object.Metadata := (Object.Metadata obj)(k := v)\<rparr>)
     = (if sl = Key k then v else read_slot sl obj)"
proof (cases sl)
  case (Attribute a')
  then show ?thesis by (cases a') simp_all
next
  case (Key k')
  then show ?thesis by simp
qed

lemma read_apply_mutation:
  "read_slot sl (apply_mutation m obj) = (if sl = target m then written m else read_slot sl obj)"
  by (cases m) (simp_all add: read_set_attribute read_update_Metadata)

lemma identity_set_attribute:
  "Object.Name (set_attribute a v obj) = Object.Name obj"
  "Generation (set_attribute a v obj) = Generation obj"
  by (cases a; simp)+

lemma identity_apply_mutation:
  "Object.Name (apply_mutation m obj) = Object.Name obj"
  "Generation (apply_mutation m obj) = Generation obj"
  by (cases m; simp add: identity_set_attribute)+

lemma identity_apply_mutations:
  "Object.Name (apply_mutations ms obj) = Object.Name obj"
  "Generation (apply_mutations ms obj) = Generation obj"
  by (induction ms arbitrary: obj) (simp_all add: identity_apply_mutation)

lemma read_apply_mutations:
  "read_slot sl (apply_mutations ms obj) =
     (case last_write ms sl of None \<Rightarrow> read_slot sl obj | Some v \<Rightarrow> v)"
  by (induction ms arbitrary: obj) (auto simp: read_apply_mutation split: option.splits)

lemma Object_eqI:
  fixes o1 o2 :: Object
  assumes "Object.Name o1 = Object.Name o2" and "Generation o1 = Generation o2"
      and "\<And>sl. read_slot sl o1 = read_slot sl o2"
  shows "o1 = o2"
proof -
  have "Object.ContentType o1 = Object.ContentType o2"
    using assms(3)[of "Attribute ContentTypeAttr"] by simp
  moreover have "Object.ContentEncoding o1 = Object.ContentEncoding o2"
    using assms(3)[of "Attribute ContentEncodingAttr"] by simp
  moreover have "Object.ContentLanguage o1 = Object.ContentLanguage o2"
    using assms(3)[of "Attribute ContentLanguageAttr"] by simp
  moreover have "Object.CacheControl o1 = Object.CacheControl o2"
    using assms(3)[of "Attribute CacheControlAttr"] by simp
  moreover have "Object.Metadata o1 = Object.Metadata o2"
  proof
    fix k show "Object.Metadata o1 k = Object.Metadata o2 k"
      using assms(3)[of "Key k"] by simp
  qed
  ultimately show ?thesis
    using assms(1,2) by simp
qed

lemma apply_mutations_idem:
  "apply_mutations ms (apply_mutations ms obj) = apply_mutations ms obj"
proof (rule Object_eqI)
  fix sl
  show "read_slot sl (apply_mutations ms (apply_mutations ms obj))
        = read_slot sl (apply_mutations ms obj)"
    by (simp add: read_apply_mutations split: option.split)
qed (simp_all add: identity_apply_mutations)

lemma last_write_append:
  "last_write (xs @ ys) sl =
     (case last_write ys sl of Some v \<Rightarrow> Some v | None \<Rightarrow> last_write xs sl)"
  by (induction xs) (auto split: option.splits)

lemma target_resolve_key: "target (resolve_key (k, v)) = Key k"
  by (cases v) (simp_all add: resolve_key_def)

lemma written_resolve_key: "written (resolve_key (k, v)) = v"
  by (cases v) (simp_all add: resolve_key_def)

lemma last_write_keys_Attribute: "last_write (map resolve_key md) (Attribute a) = None"
  by (induction md) (auto simp: target_resolve_key)

lemma last_write_keys_Key:
  "distinct (map fst md) \<Longrightarrow> last_write (map resolve_key md) (Key k) = map_of md k"
proof (induction md)
  case Nil
  then show ?case by simp
next
  case (Cons kv md)
  obtain k' v where kv: "kv = (k', v)" by (cases kv)
  from Cons.prems kv have "map_of md k' = None"
    by (simp add: map_of_eq_None_iff)
  with Cons kv show ?case
    by (auto simp: target_resolve_key written_resolve_key split: option.splits)
qed

lemma last_write_keys_order:
  assumes "distinct (map fst md)" and "distinct (map fst md')" and "set md = set md'"
  shows "last_write (map resolve_key md) sl = last_write (map resolve_key md') sl"
proof (cases sl)
  case (Attribute a)
  then show ?thesis by (simp add: last_write_keys_Attribute)
next
  case (Key k)
  have "map_of md = map_of md'"
    using assms by (simp add: map_of_inject_set)
  with Key assms show ?thesis by (simp add: last_write_keys_Key)
qed

lemma apply_mutations_order:
  assumes "distinct (map fst md)" and "distinct (map fst md')" and "set md = set md'"
  shows "apply_mutations (ms @ map resolve_key md) obj = apply_mutations (ms @ map resolve_key md') obj"
proof (rule Object_eqI)
  fix sl
  show "read_slot sl (apply_mutations (ms @ map resolve_key md) obj)
        = read_slot sl (apply_mutations (ms @ map resolve_key md') obj)"
    using last_write_keys_order [OF assms, of sl]
    by (simp add: read_apply_mutations last_write_append)
qed (simp_all add: identity_apply_mutations)

lemma apply_request_order:
  assumes "distinct (map fst md)" and "distinct (map fst md')" and "set md = set md'"
  shows "apply_request (req\<lparr>UpdateObjectRequest.Metadata := md\<rparr>) obj
         = apply_request (req\<lparr>UpdateObjectRequest.Metadata := md'\<rparr>) obj"
  using apply_mutations_order [OF assms]
  by (simp add: apply_request_def resolve_def flip: append_assoc)

lemma apply_example: "apply_request example_update example_object = Inr patched_object"
  by (simp add: apply_request_def resolve_def resolve_attribute_def resolve_key_def
      example_update_def example_object_def patched_object_def fun_upd_twist)

text \<open>
  C5: applying an \<^verbatim>\<open>UpdateObjectRequest\<close> to an Object Record twice gives the same result as
  applying it once: the same Object Record when the resolver succeeds, the same error
  (and no Object Record) when it fails. By \<open>apply_request_order\<close> the order in which the
  metadata map of the request is traversed makes no difference either.
\<close>

theorem apply_request_idempotent: "apply_request_twice req obj = apply_request req obj"
  by (simp add: apply_request_twice_def apply_request_def apply_mutations_idem split: sum.split)

theorem apply_request_idempotent_witness:
  "apply_request example_update example_object = Inr patched_object
   \<and> apply_request_twice example_update example_object = Inr patched_object
   \<and> patched_object \<noteq> example_object"
  using apply_request_idempotent [of example_update example_object] apply_example
  by (simp add: patched_object_def example_object_def)

text \<open>
  C6: a request whose \<^verbatim>\<open>ContentType\<close> is present and empty asks for the content type to be
  deleted; the resolver fails with \<^verbatim>\<open>InvalidUpdate\<close> and yields no mutation list, so
  nothing is applied to the Object Record.
\<close>

theorem delete_content_type_InvalidUpdate:
  assumes "UpdateObjectRequest.ContentType req = Some []"
  shows "resolve req = Inl InvalidUpdate \<and> apply_request req obj = Inl InvalidUpdate"
  using assms by (simp add: resolve_def apply_request_def)

theorem delete_content_type_InvalidUpdate_witness:
  "UpdateObjectRequest.ContentType (example_update\<lparr>UpdateObjectRequest.ContentType := Some []\<rparr>) = Some []
   \<and> resolve (example_update\<lparr>UpdateObjectRequest.ContentType := Some []\<rparr>) = Inl InvalidUpdate
   \<and> apply_request (example_update\<lparr>UpdateObjectRequest.ContentType := Some []\<rparr>) example_object
       = Inl InvalidUpdate"
  using delete_content_type_InvalidUpdate [of "example_update\<lparr>UpdateObjectRequest.ContentType := Some []\<rparr>" example_object]
  by simp

subsection \<open>Conditional creation\<close>

lemma well_formed_empty: "well_formed empty_bucket"
  by (simp add: well_formed_def empty_bucket_def)

lemma well_formed_CreateObject:
  assumes "well_formed st"
  shows "well_formed (snd (CreateObject req st))"
  using assms
  unfolding well_formed_def CreateObject_def RemoteWrite_def
  by (fastforce simp: Let_def split: option.splits if_splits)

lemma CreateObject_absent:
  assumes "valid_name (CreateObjectRequest.Name req)"
      and "contents st (CreateObjectRequest.Name req) = None"
      and "GenerationPrecondition req = Some 0"
  shows "\<exists>obj. fst (CreateObject req st) = Inr obj \<and> Generation obj = next_generation st
           \<and> contents (snd (CreateObject req st)) (CreateObjectRequest.Name req) = Some obj"
  using assms by (simp add: CreateObject_def RemoteWrite_def precondition_holds_def Let_def)

lemma PreconditionFailed_iff:
  "fst (CreateObject req st) = Inl PreconditionFailed \<longleftrightarrow>
     valid_name (CreateObjectRequest.Name req)
     \<and> \<not> precondition_holds st (CreateObjectRequest.Name req) (GenerationPrecondition req)"
  by (simp add: CreateObject_def RemoteWrite_def Let_def)

lemma precondition_holds_current_generation:
  assumes "well_formed st"
  shows "precondition_holds st n (Some g) = (current_generation st n = g)"
proof (cases "contents st n")
  case None
  then show ?thesis by (auto simp: precondition_holds_def current_generation_def)
next
  case (Some obj)
  then have "n \<in> dom (contents st)" by auto
  with assms have "case contents st n of None \<Rightarrow> False
      | Some obj \<Rightarrow> Object.Name obj = n \<and> 0 < Generation obj \<and> Generation obj < next_generation st"
    unfolding well_formed_def by blast
  with Some have "0 < Generation obj"
    by simp
  with Some show ?thesis by (auto simp: precondition_holds_def current_generation_def)
qed

lemma well_formed_bucket_with_object: "well_formed bucket_with_object"
  by (simp add: well_formed_def bucket_with_object_def mk_object_simps valid_name_def)

text \<open>
  C7: a \<^verbatim>\<open>CreateObjectRequest\<close> whose generation precondition is 0, issued against a bucket
  in which an object with that name exists, fails with \<^verbatim>\<open>PreconditionFailed\<close> and leaves the
  bucket as it was. \<^verbatim>\<open>PreconditionFailed\<close> is kept apart from the other failures of a write:
  \<^verbatim>\<open>CreateObject\<close> returns it exactly when the name is legal and the precondition does not
  hold.
\<close>

theorem CreateObject_precondition_zero_on_existing:
  assumes "GenerationPrecondition req = Some 0"
      and "contents st (CreateObjectRequest.Name req) = Some obj"
      and "well_formed st"
  shows "CreateObject req st = (Inl PreconditionFailed, st)
         \<and> (fst (CreateObject req' st') = Inl PreconditionFailed)
             = (valid_name (CreateObjectRequest.Name req')
                \<and> \<not> precondition_holds st' (CreateObjectRequest.Name req')
                      (GenerationPrecondition req'))"
proof -
  from assms(2) have "CreateObjectRequest.Name req \<in> dom (contents st)" by auto
  with assms(3) have "valid_name (CreateObjectRequest.Name req)"
    unfolding well_formed_def by blast
  then have "CreateObject req st = (Inl PreconditionFailed, st)"
    using assms(1,2) by (simp add: CreateObject_def RemoteWrite_def precondition_holds_def)
  then show ?thesis
    by (simp add: PreconditionFailed_iff)
qed

theorem CreateObject_precondition_zero_on_existing_witness:
  "GenerationPrecondition (create_request ''a/x'' (Some 0)) = Some 0
   \<and> contents bucket_with_object (CreateObjectRequest.Name (create_request ''a/x'' (Some 0)))
       = Some (mk_object ''a/x'' 1)
   \<and> well_formed bucket_with_object
   \<and> CreateObject (create_request ''a/x'' (Some 0)) bucket_with_object
       = (Inl PreconditionFailed, bucket_with_object)"
proof -
  have p: "GenerationPrecondition (create_request ''a/x'' (Some 0)) = Some 0"
    by (simp add: create_request_def)
  have c: "contents bucket_with_object (CreateObjectRequest.Name (create_request ''a/x'' (Some 0)))
       = Some (mk_object ''a/x'' 1)"
    by (simp add: create_request_def bucket_with_object_def)
  from p c well_formed_bucket_with_object
    CreateObject_precondition_zero_on_existing [OF p c well_formed_bucket_with_object]
  show ?thesis by simp
qed

subsection \<open>NewWriter\<close>

text \<open>
  C10, as amended: for every non-nil \<^verbatim>\<open>attrs\<close>, also one whose \<^verbatim>\<open>Name\<close> is empty,
  \<^verbatim>\<open>NewWriter\<close> returns a writer wrapping exactly these attributes together with a nil
  error; it validates nothing and leaves the remote store untouched.
\<close>

theorem NewWriter_returns_writer_unvalidated:
  "NewWriter b ctx (Some attrs) s = (Inr (Inr \<lparr>wrapped = \<lparr>ObjectAttrs = attrs\<rparr>\<rparr>), s)
   \<and> NewWriter b ctx (Some (attrs\<lparr>ObjectAttrs.Name := ''''\<rparr>)) s
       = (Inr (Inr \<lparr>wrapped = \<lparr>ObjectAttrs = attrs\<lparr>ObjectAttrs.Name := ''''\<rparr>\<rparr>\<rparr>), s)"
  by (simp add: NewWriter_def)

text \<open>
  C10 as stated fails at the \<^verbatim>\<open>nil\<close> pointer, which is an \<^verbatim>\<open>attrs\<close> argument too: the
  dereference \<^verbatim>\<open>*attrs\<close> panics and no writer is returned.
\<close>

theorem NewWriter_nil_attrs_counterexample:
  "fst (NewWriter test_bucket Background None ()) = Inl NilPointerDereference"
  by (simp add: NewWriter_def)

end
